theory Spec2Isabelle
  imports Complex_Main "HOL-Library.Sublist" "HOL-Library.AList"
begin

section \<open>Python values\<close>

text \<open>
  The values that \<^verbatim>\<open>json\<close> decoding hands to the script: \<^verbatim>\<open>None\<close>, booleans,
  unbounded integers, floats, strings, lists and dictionaries. A dictionary is an
  association list read with \<open>map_of\<close>; a Python dictionary has each key once.
  A float is modelled by the real number it denotes: rounding, NaN and the
  infinities are outside the model.
\<close>

datatype jval =
    JNull
  | JBool bool
  | JInt int
  | JFloat real
  | JStr string
  | JList "jval list"
  | JObj "(string \<times> jval) list"

type_synonym pydict = "(string \<times> jval) list"

datatype pyerr = TypeError | AttributeError | KeyError | ValueError | OverflowError

text \<open>
  Ordering comparisons and arithmetic accept \<^verbatim>\<open>bool\<close>, \<^verbatim>\<open>int\<close> and \<^verbatim>\<open>float\<close>
  (\<^verbatim>\<open>bool\<close> is a subclass of \<^verbatim>\<open>int\<close>, \<^verbatim>\<open>True\<close> is 1); against a number every
  other value raises \<^verbatim>\<open>TypeError\<close>.
\<close>

fun as_number :: "jval \<Rightarrow> real option" where
  "as_number (JBool b) = Some (if b then 1 else 0)"
| "as_number (JInt n) = Some (real_of_int n)"
| "as_number (JFloat x) = Some x"
| "as_number JNull = None"
| "as_number (JStr s) = None"
| "as_number (JList xs) = None"
| "as_number (JObj kvs) = None"

definition num_test :: "(real \<Rightarrow> bool) \<Rightarrow> jval \<Rightarrow> pyerr + bool" where
  "num_test P v = (case as_number v of None \<Rightarrow> Inl TypeError | Some x \<Rightarrow> Inr (P x))"

text \<open>
  \<^verbatim>\<open>x - v\<close> for a float \<open>x\<close>: an integer operand is converted to a float first, and
  one too large for a double (it would round to \<open>2 ^ 1024\<close>) raises
  \<^verbatim>\<open>OverflowError\<close>.
\<close>

definition float_minus :: "real \<Rightarrow> jval \<Rightarrow> pyerr + real" where
  "float_minus x v =
     (case v of
        JBool b \<Rightarrow> Inr (x - (if b then 1 else 0))
      | JInt n \<Rightarrow> if \<bar>n\<bar> < 2 ^ 1024 - 2 ^ 970 then Inr (x - real_of_int n)
                  else Inl OverflowError
      | JFloat y \<Rightarrow> Inr (x - y)
      | JNull \<Rightarrow> Inl TypeError
      | JStr s \<Rightarrow> Inl TypeError
      | JList xs \<Rightarrow> Inl TypeError
      | JObj kvs \<Rightarrow> Inl TypeError)"

text \<open>\<^verbatim>\<open>isinstance(v, (int, float))\<close>\<close>

fun isinstance_int_float :: "jval \<Rightarrow> bool" where
  "isinstance_int_float (JBool b) = True"
| "isinstance_int_float (JInt n) = True"
| "isinstance_int_float (JFloat x) = True"
| "isinstance_int_float JNull = False"
| "isinstance_int_float (JStr s) = False"
| "isinstance_int_float (JList xs) = False"
| "isinstance_int_float (JObj kvs) = False"

text \<open>\<^verbatim>\<open>str(type(v))\<close>\<close>

fun type_repr :: "jval \<Rightarrow> string" where
  "type_repr JNull = ''<class 'NoneType'>''"
| "type_repr (JBool b) = ''<class 'bool'>''"
| "type_repr (JInt n) = ''<class 'int'>''"
| "type_repr (JFloat x) = ''<class 'float'>''"
| "type_repr (JStr s) = ''<class 'str'>''"
| "type_repr (JList xs) = ''<class 'list'>''"
| "type_repr (JObj kvs) = ''<class 'dict'>''"

text \<open>The decimal text of a natural number, as an f-string prints \<^verbatim>\<open>i+1\<close>.\<close>

definition digit_char :: "nat \<Rightarrow> char" where
  "digit_char n = char_of (48 + n)"

function str_nat :: "nat \<Rightarrow> string" where
  "str_nat n =
     (if n < 10 then [digit_char n] else str_nat (n div 10) @ [digit_char (n mod 10)])"
  by pat_completeness auto
termination
  by (relation "measure id") auto

declare str_nat.simps [simp del]

text \<open>\<^verbatim>\<open>s.replace('Z', '+00:00')\<close>: every occurrence is replaced.\<close>

definition replace_Z :: "string \<Rightarrow> string" where
  "replace_Z s = concat (map (\<lambda>c. if c = CHR ''Z'' then ''+00:00'' else [c]) s)"

subsection \<open>Timestamps\<close>

text \<open>
  A \<^verbatim>\<open>datetime\<close>: the wall-clock reading in microseconds since 0001-01-01T00:00:00
  and the UTC offset in microseconds, absent for a naive value. Ordering and
  subtraction of an aware and a naive value raise \<^verbatim>\<open>TypeError\<close>; two aware values
  are compared as instants.
\<close>

record datetime =
  wall_us :: int
  utcoffset_us :: "int option"

definition dt_le :: "datetime \<Rightarrow> datetime \<Rightarrow> pyerr + bool" where
  "dt_le a b =
     (case utcoffset_us a of
        None \<Rightarrow> (case utcoffset_us b of
                   None \<Rightarrow> Inr (wall_us a \<le> wall_us b)
                 | Some ob \<Rightarrow> Inl TypeError)
      | Some oa \<Rightarrow> (case utcoffset_us b of
                   None \<Rightarrow> Inl TypeError
                 | Some ob \<Rightarrow> Inr (wall_us a - oa \<le> wall_us b - ob)))"

text \<open>\<open>dt_sub a b\<close> is the \<^verbatim>\<open>timedelta\<close> \<^verbatim>\<open>a - b\<close> in microseconds.\<close>

definition dt_sub :: "datetime \<Rightarrow> datetime \<Rightarrow> pyerr + int" where
  "dt_sub a b =
     (case utcoffset_us a of
        None \<Rightarrow> (case utcoffset_us b of
                   None \<Rightarrow> Inr (wall_us a - wall_us b)
                 | Some ob \<Rightarrow> Inl TypeError)
      | Some oa \<Rightarrow> (case utcoffset_us b of
                   None \<Rightarrow> Inl TypeError
                 | Some ob \<Rightarrow> Inr ((wall_us a - oa) - (wall_us b - ob))))"

definition total_seconds :: "int \<Rightarrow> real" where
  "total_seconds us = real_of_int us / 1000000"

subsection \<open>Library functions taken as parameters\<close>

text \<open>
  The script calls into the Python library for three things the model does not define:
  \<open>py_str\<close> is \<^verbatim>\<open>str(v)\<close>, the text an f-string field \<^verbatim>\<open>{v}\<close> prints;
  \<open>fromisoformat\<close> is \<^verbatim>\<open>datetime.fromisoformat\<close> on a string, \<open>Inl\<close> carrying the message
  of the \<^verbatim>\<open>ValueError\<close> it raises on a malformed one;
  \<open>format_0f\<close> is the f-string field \<^verbatim>\<open>{x:.0f}\<close>.
\<close>

record pylib =
  py_str :: "jval \<Rightarrow> string"
  fromisoformat :: "string \<Rightarrow> string + datetime"
  format_0f :: "real \<Rightarrow> string"

section \<open>The record validator\<close>

text \<open>The two lists the loop appends to: \<^verbatim>\<open>errors\<close> and \<^verbatim>\<open>warnings\<close>.\<close>

type_synonym acc = "string list \<times> string list"

definition add_error :: "string \<Rightarrow> acc \<Rightarrow> acc" where
  "add_error m a = (fst a @ [m], snd a)"

definition add_warning :: "string \<Rightarrow> acc \<Rightarrow> acc" where
  "add_warning m a = (fst a, snd a @ [m])"

text \<open>\<^verbatim>\<open>f"Trade {i+1}: "\<close>, the start of every message of the record at index \<open>i\<close>.\<close>

definition tag :: "nat \<Rightarrow> string" where
  "tag i = ''Trade '' @ str_nat (i + 1) @ '': ''"

definition required_fields :: "string list" where
  "required_fields =
     [''id'', ''pair'', ''entry_price'', ''exit_price'', ''pnl'',
      ''duration_seconds'', ''entry_time'', ''exit_time'', ''success'',
      ''market_regime'', ''trend_strength'', ''volatility'', ''created_at'']"

definition missing_msg :: "nat \<Rightarrow> string \<Rightarrow> string" where
  "missing_msg i field = tag i @ ''Missing required field '' @ [CHR 0x27] @ field @ [CHR 0x27]"

text \<open>The inner loop over \<^verbatim>\<open>required_fields\<close>.\<close>

fun check_required :: "nat \<Rightarrow> pydict \<Rightarrow> string list \<Rightarrow> acc \<Rightarrow> acc" where
  "check_required i trade [] a = a"
| "check_required i trade (field # rest) a =
     check_required i trade rest
       (if map_of trade field = None then add_error (missing_msg i field) a else a)"

text \<open>
  The statements of the shape
  \<^verbatim>\<open>if "f" in trade and cond(trade["f"]): lst.append(msg)\<close>:
  the condition is evaluated only when the key is present, and may raise.
\<close>

definition field_check ::
  "string \<Rightarrow> (jval \<Rightarrow> pyerr + bool) \<Rightarrow> (jval \<Rightarrow> acc \<Rightarrow> acc) \<Rightarrow> pydict \<Rightarrow> acc \<Rightarrow> pyerr + acc" where
  "field_check field cond report trade a =
     (case map_of trade field of
        None \<Rightarrow> Inr a
      | Some v \<Rightarrow> (case cond v of
                    Inl e \<Rightarrow> Inl e
                  | Inr b \<Rightarrow> Inr (if b then report v a else a)))"

definition valid_regimes :: "jval list" where
  "valid_regimes = [JStr ''Consolidating'', JStr ''Trending'', JStr ''Volatile'']"

definition mismatch_msg :: "pylib \<Rightarrow> nat \<Rightarrow> real \<Rightarrow> jval \<Rightarrow> string" where
  "mismatch_msg L i calculated_duration stored =
     tag i @ ''Duration mismatch (calculated: '' @ format_0f L calculated_duration
       @ ''s, stored: '' @ py_str L stored @ ''s)''"

definition exit_before_msg :: "nat \<Rightarrow> string" where
  "exit_before_msg i = tag i @ ''Exit time before or equal to entry time''"

text \<open>The body of the \<^verbatim>\<open>try\<close> block once both timestamps are parsed.\<close>

definition compare_times :: "pylib \<Rightarrow> nat \<Rightarrow> pydict \<Rightarrow> datetime \<Rightarrow> datetime \<Rightarrow> acc \<Rightarrow> pyerr + acc" where
  "compare_times L i trade entry_time exit_time a =
     (case dt_le exit_time entry_time of
        Inl e \<Rightarrow> Inl e
      | Inr b \<Rightarrow>
          (let a1 = (if b then add_error (exit_before_msg i) a else a) in
           case map_of trade ''duration_seconds'' of
             None \<Rightarrow> Inr a1
           | Some stored \<Rightarrow>
               (case dt_sub exit_time entry_time of
                  Inl e \<Rightarrow> Inl e
                | Inr us \<Rightarrow>
                    (case float_minus (total_seconds us) stored of
                       Inl e \<Rightarrow> Inl e
                     | Inr difference \<Rightarrow>
                         Inr (if \<bar>difference\<bar> > 1
                              then add_warning (mismatch_msg L i (total_seconds us) stored) a1
                              else a1)))))"

text \<open>
  \<^verbatim>\<open>.replace\<close> exists on strings only: any other value raises \<^verbatim>\<open>AttributeError\<close>,
  which the \<^verbatim>\<open>except ValueError\<close> clause does not catch.
\<close>

definition parse_time :: "pylib \<Rightarrow> jval \<Rightarrow> pyerr + (string + datetime)" where
  "parse_time L v =
     (case v of
        JStr s \<Rightarrow> Inr (fromisoformat L (replace_Z s))
      | JNull \<Rightarrow> Inl AttributeError
      | JBool b \<Rightarrow> Inl AttributeError
      | JInt n \<Rightarrow> Inl AttributeError
      | JFloat x \<Rightarrow> Inl AttributeError
      | JList xs \<Rightarrow> Inl AttributeError
      | JObj kvs \<Rightarrow> Inl AttributeError)"

definition invalid_datetime_msg :: "nat \<Rightarrow> string \<Rightarrow> string" where
  "invalid_datetime_msg i e = tag i @ ''Invalid datetime format: '' @ e"

definition check_times :: "pylib \<Rightarrow> nat \<Rightarrow> pydict \<Rightarrow> acc \<Rightarrow> pyerr + acc" where
  "check_times L i trade a =
     (case map_of trade ''entry_time'' of
        None \<Rightarrow> Inr a
      | Some ve \<Rightarrow>
          (case map_of trade ''exit_time'' of
             None \<Rightarrow> Inr a
           | Some vx \<Rightarrow>
               (case parse_time L ve of
                  Inl e \<Rightarrow> Inl e
                | Inr (Inl msg) \<Rightarrow> Inr (add_error (invalid_datetime_msg i msg) a)
                | Inr (Inr entry_time) \<Rightarrow>
                    (case parse_time L vx of
                       Inl e \<Rightarrow> Inl e
                     | Inr (Inl msg) \<Rightarrow> Inr (add_error (invalid_datetime_msg i msg) a)
                     | Inr (Inr exit_time) \<Rightarrow> compare_times L i trade entry_time exit_time a))))"

text \<open>Statements in sequence: the first exception ends the run.\<close>

fun run_checks :: "(acc \<Rightarrow> pyerr + acc) list \<Rightarrow> acc \<Rightarrow> pyerr + acc" where
  "run_checks [] a = Inr a"
| "run_checks (c # cs) a = (case c a of Inl e \<Rightarrow> Inl e | Inr a' \<Rightarrow> run_checks cs a')"

text \<open>The body of the loop over \<^verbatim>\<open>enumerate(trades)\<close>.\<close>

definition verify_one :: "pylib \<Rightarrow> nat \<Rightarrow> pydict \<Rightarrow> acc \<Rightarrow> pyerr + acc" where
  "verify_one L i trade a =
     run_checks
       [field_check ''entry_price'' (num_test (\<lambda>x. x \<le> 0))
          (\<lambda>v. add_error (tag i @ ''Invalid entry_price ('' @ py_str L v @ '')'')) trade,
        field_check ''exit_price'' (num_test (\<lambda>x. x \<le> 0))
          (\<lambda>v. add_error (tag i @ ''Invalid exit_price ('' @ py_str L v @ '')'')) trade,
        field_check ''pnl'' (\<lambda>v. Inr (\<not> isinstance_int_float v))
          (\<lambda>v. add_error (tag i @ ''Invalid pnl type ('' @ type_repr v @ '')'')) trade,
        field_check ''duration_seconds'' (num_test (\<lambda>x. x < 0))
          (\<lambda>v. add_warning (tag i @ ''Negative duration ('' @ py_str L v @ ''s)'')) trade,
        field_check ''trend_strength'' (num_test (\<lambda>x. \<not> (0 \<le> x \<and> x \<le> 1)))
          (\<lambda>v. add_warning (tag i @ ''Trend strength out of range ('' @ py_str L v @ '')'')) trade,
        field_check ''volatility'' (num_test (\<lambda>x. x < 0))
          (\<lambda>v. add_warning (tag i @ ''Negative volatility ('' @ py_str L v @ '')'')) trade,
        field_check ''market_regime'' (\<lambda>v. Inr (v \<notin> set valid_regimes))
          (\<lambda>v. add_warning (tag i @ ''Unknown market regime ('' @ py_str L v @ '')'')) trade,
        check_times L i trade]
       (check_required i trade required_fields a)"

fun verify_loop :: "pylib \<Rightarrow> nat \<Rightarrow> pydict list \<Rightarrow> acc \<Rightarrow> pyerr + acc" where
  "verify_loop L i [] a = Inr a"
| "verify_loop L i (trade # trades) a =
     (case verify_one L i trade a of
        Inl e \<Rightarrow> Inl e
      | Inr a' \<Rightarrow> verify_loop L (i + 1) trades a')"

text \<open>The report is the dictionary the function returns.\<close>

definition verify_trade_data :: "pylib \<Rightarrow> pydict list \<Rightarrow> pyerr + pydict" where
  "verify_trade_data L trades =
     (if trades = []
      then Inr [(''valid'', JBool False), (''errors'', JList [JStr ''No trades found''])]
      else (case verify_loop L 0 trades ([], []) of
              Inl e \<Rightarrow> Inl e
            | Inr (errors, warnings) \<Rightarrow>
                Inr [(''valid'', JBool (length errors = 0)),
                     (''errors'', JList (map JStr errors)),
                     (''warnings'', JList (map JStr warnings)),
                     (''total_trades'', JInt (int (length trades)))]))"

section \<open>Effects\<close>

text \<open>
  What a run leaves behind: the files written, the lines printed and the HTTP requests
  issued. A CSV file is kept as its rows of fields (quoting is the \<^verbatim>\<open>csv\<close> dialect's
  business), a JSON file as the value handed to \<^verbatim>\<open>json.dump\<close>.
\<close>

datatype file_content = CsvRows "string list list" | JsonDump "pydict list"

record request =
  url :: string
  params :: pydict
  timeout :: "nat option"

record world =
  files :: "(string \<times> file_content) list"
  printed :: "string list"
  sent :: "request list"

definition print_line :: "string \<Rightarrow> world \<Rightarrow> world" where
  "print_line s w = w\<lparr>printed := printed w @ [s]\<rparr>"


text \<open>The emoji that start the printed lines, as UTF-8 bytes.\<close>

definition cross_mark :: string where
  "cross_mark = [CHR 0xE2, CHR 0x9D, CHR 0x8C]"



section \<open>The exporter\<close>










section \<open>The transport client\<close>

text \<open>
  What the network answers to a request. \<open>ConnectionFailed\<close> is a
  \<^verbatim>\<open>requests.exceptions.RequestException\<close> raised by \<^verbatim>\<open>session.get\<close>, with its text.
  A response has its status code, the text \<^verbatim>\<open>raise_for_status\<close> would put in its
  \<^verbatim>\<open>HTTPError\<close>, and what \<^verbatim>\<open>response.json()\<close> gives: the decoded value or the
  decoding error. Which class that error has depends on the installed \<^verbatim>\<open>requests\<close>:
  its own \<^verbatim>\<open>JSONDecodeError\<close>, a \<^verbatim>\<open>RequestException\<close>, or the one of \<^verbatim>\<open>json\<close>.
\<close>

datatype json_failure = RequestsJSONDecodeError string | StdJSONDecodeError string

record response =
  status_code :: nat
  http_error_msg :: string
  json :: "json_failure + jval"

datatype outcome = ConnectionFailed string | Response response

type_synonym network = "request \<Rightarrow> outcome"

text \<open>
  The attribute that \<^verbatim>\<open>__init__\<close> sets on the session object. \<^verbatim>\<open>requests\<close> has no
  such session setting: \<^verbatim>\<open>Session.request\<close> passes on its own keyword argument
  \<^verbatim>\<open>timeout\<close>, \<^verbatim>\<open>None\<close> when the caller gives none, and never reads the attribute.
\<close>

record session =
  timeout_attr :: "nat option"

record MLTradeQuery =
  database_url :: string
  session :: session

definition rstrip_slash :: "string \<Rightarrow> string" where
  "rstrip_slash s = rev (dropWhile (\<lambda>c. c = CHR ''/'') (rev s))"

definition init :: "string \<Rightarrow> MLTradeQuery" where
  "init base = \<lparr>database_url = rstrip_slash base, session = \<lparr>timeout_attr = Some 10\<rparr>\<rparr>"

text \<open>\<^verbatim>\<open>session.get(url, params=params)\<close> with the keyword argument \<^verbatim>\<open>timeout\<close> as given.\<close>

definition session_get ::
  "network \<Rightarrow> session \<Rightarrow> string \<Rightarrow> pydict \<Rightarrow> nat option \<Rightarrow> world \<Rightarrow> outcome \<times> world" where
  "session_get net s u ps timeout_arg w =
     (let req = \<lparr>url = u, params = ps, timeout = timeout_arg\<rparr>
      in (net req, w\<lparr>sent := sent w @ [req]\<rparr>))"

text \<open>\<^verbatim>\<open>raise_for_status\<close> raises for \<^verbatim>\<open>400 <= status_code < 600\<close> only.\<close>

definition raises_for_status :: "response \<Rightarrow> bool" where
  "raises_for_status r \<longleftrightarrow> 400 \<le> status_code r \<and> status_code r < 600"

text \<open>Truth value of a Python value, as \<^verbatim>\<open>and\<close> tests it.\<close>

fun truthy :: "jval \<Rightarrow> bool" where
  "truthy JNull = False"
| "truthy (JBool b) = b"
| "truthy (JInt n) = (n \<noteq> 0)"
| "truthy (JFloat x) = (x \<noteq> 0)"
| "truthy (JStr s) = (s \<noteq> [])"
| "truthy (JList xs) = (xs \<noteq> [])"
| "truthy (JObj kvs) = (kvs \<noteq> [])"

text \<open>\<^verbatim>\<open>d.get(key, default)\<close>\<close>

definition dict_get :: "pydict \<Rightarrow> string \<Rightarrow> jval \<Rightarrow> jval" where
  "dict_get d key dflt = (case map_of d key of None \<Rightarrow> dflt | Some v \<Rightarrow> v)"

text \<open>
  The part after \<^verbatim>\<open>data = response.json()\<close>; \<^verbatim>\<open>.get\<close> exists on dictionaries only.
  \<open>nothing\<close> is what the operation returns when it has nothing: \<^verbatim>\<open>[]\<close> or \<^verbatim>\<open>None\<close>.
\<close>

definition unwrap_data :: "pylib \<Rightarrow> jval \<Rightarrow> jval \<Rightarrow> world \<Rightarrow> (pyerr + jval) \<times> world" where
  "unwrap_data L nothing data w =
     (case data of
        JObj d \<Rightarrow>
          (if truthy (dict_get d ''success'' JNull) \<and> map_of d ''data'' \<noteq> None
           then (Inr (the (map_of d ''data'')), w)
           else (Inr nothing,
                 print_line (cross_mark @ '' Error: ''
                   @ py_str L (dict_get d ''message'' (JStr ''Unknown error''))) w))
      | JNull \<Rightarrow> (Inl AttributeError, w)
      | JBool b \<Rightarrow> (Inl AttributeError, w)
      | JInt n \<Rightarrow> (Inl AttributeError, w)
      | JFloat x \<Rightarrow> (Inl AttributeError, w)
      | JStr s \<Rightarrow> (Inl AttributeError, w)
      | JList xs \<Rightarrow> (Inl AttributeError, w))"

text \<open>
  The \<^verbatim>\<open>try\<close> statement the three operations share: one GET without a
  \<^verbatim>\<open>timeout\<close> argument, \<^verbatim>\<open>raise_for_status\<close>, \<^verbatim>\<open>json()\<close>, and the two
  \<^verbatim>\<open>except\<close> clauses.
\<close>

definition fetch :: "pylib \<Rightarrow> network \<Rightarrow> MLTradeQuery \<Rightarrow> string \<Rightarrow> pydict \<Rightarrow> jval \<Rightarrow> world
    \<Rightarrow> (pyerr + jval) \<times> world" where
  "fetch L net self u ps nothing w =
     (case session_get net (session self) u ps None w of
        (ConnectionFailed e, w1) \<Rightarrow>
          (Inr nothing, print_line (cross_mark @ '' Network error: '' @ e) w1)
      | (Response r, w1) \<Rightarrow>
          if raises_for_status r
          then (Inr nothing, print_line (cross_mark @ '' Network error: '' @ http_error_msg r) w1)
          else (case json r of
                  Inl (RequestsJSONDecodeError e) \<Rightarrow>
                    (Inr nothing, print_line (cross_mark @ '' Network error: '' @ e) w1)
                | Inl (StdJSONDecodeError e) \<Rightarrow>
                    (Inr nothing, print_line (cross_mark @ '' JSON decode error: '' @ e) w1)
                | Inr data \<Rightarrow> unwrap_data L nothing data w1))"

definition get_ml_trades ::
  "pylib \<Rightarrow> network \<Rightarrow> MLTradeQuery \<Rightarrow> string \<Rightarrow> int \<Rightarrow> world \<Rightarrow> (pyerr + jval) \<times> world" where
  "get_ml_trades L net self pair limit w =
     fetch L net self (database_url self @ ''/ml/trades/'' @ pair) [(''limit'', JInt limit)]
       (JList []) w"

definition get_ml_stats ::
  "pylib \<Rightarrow> network \<Rightarrow> MLTradeQuery \<Rightarrow> string \<Rightarrow> world \<Rightarrow> (pyerr + jval) \<times> world" where
  "get_ml_stats L net self pair w =
     fetch L net self (database_url self @ ''/ml/stats/'' @ pair) [] JNull w"

definition get_ml_status ::
  "pylib \<Rightarrow> network \<Rightarrow> MLTradeQuery \<Rightarrow> world \<Rightarrow> (pyerr + jval) \<times> world" where
  "get_ml_status L net self w =
     fetch L net self (database_url self @ ''/ml/status'') [] JNull w"

section \<open>Sample inputs\<close>

text \<open>
  Concrete inputs for the examples below. \<open>sample_lib\<close> stands in for the Python
  library on the values the examples use: \<open>sample_str\<close> is \<^verbatim>\<open>str\<close> on \<^verbatim>\<open>None\<close>,
  booleans, integers and strings, \<open>sample_fromisoformat\<close> knows two timestamps and
  rejects every other string with the message Python gives for a malformed one, and
  \<open>sample_format_0f\<close> is \<^verbatim>\<open>{x:.0f}\<close> on whole numbers.
\<close>

fun sample_str :: "jval \<Rightarrow> string" where
  "sample_str JNull = ''None''"
| "sample_str (JBool b) = (if b then ''True'' else ''False'')"
| "sample_str (JInt n) = (if n < 0 then ''-'' else []) @ str_nat (nat \<bar>n\<bar>)"
| "sample_str (JStr s) = s"
| "sample_str (JFloat x) = ''<float>''"
| "sample_str (JList xs) = ''<list>''"
| "sample_str (JObj kvs) = ''<dict>''"

definition sample_fromisoformat :: "string \<Rightarrow> string + datetime" where
  "sample_fromisoformat s =
     (if s = ''2024-01-01T00:00:00+00:00''
      then Inr \<lparr>wall_us = 63839664000000000, utcoffset_us = Some 0\<rparr>
      else if s = ''2024-01-01T00:02:00+00:00''
      then Inr \<lparr>wall_us = 63839664120000000, utcoffset_us = Some 0\<rparr>
      else Inl (''Invalid isoformat string: '' @ [CHR 0x27] @ s @ [CHR 0x27]))"

definition sample_format_0f :: "real \<Rightarrow> string" where
  "sample_format_0f x = (if x < 0 then ''-'' else []) @ str_nat (nat \<lfloor>\<bar>x\<bar>\<rfloor>)"

definition sample_lib :: pylib where
  "sample_lib =
     \<lparr>py_str = sample_str, fromisoformat = sample_fromisoformat, format_0f = sample_format_0f\<rparr>"

text \<open>The well-formed record of the scenarios.\<close>

definition sample_trade :: pydict where
  "sample_trade =
     [(''entry_price'', JInt 10), (''exit_price'', JInt 11), (''pnl'', JFloat 0.1),
      (''duration_seconds'', JInt 120),
      (''entry_time'', JStr ''2024-01-01T00:00:00Z''),
      (''exit_time'', JStr ''2024-01-01T00:02:00Z''),
      (''created_at'', JStr ''2024-01-01T00:02:00Z''),
      (''success'', JBool True), (''market_regime'', JStr ''Trending''),
      (''trend_strength'', JFloat 0.5), (''volatility'', JFloat 0.2),
      (''id'', JInt 1), (''pair'', JStr ''SOLUSDC'')]"







section \<open>Counting messages\<close>

text \<open>How many messages of the record at index \<open>i\<close> start with the given words.\<close>

definition count_kind :: "nat \<Rightarrow> string \<Rightarrow> string list \<Rightarrow> nat" where
  "count_kind i kind msgs = length (filter (prefix (tag i @ kind)) msgs)"

section \<open>Failed fetches\<close>


section \<open>Lemmas about the validator\<close>

subsection \<open>Decimal numerals\<close>

lemma str_nat_nonempty: "str_nat n \<noteq> []"
  by (subst str_nat.simps) simp

lemma str_nat_small: "n < 10 \<Longrightarrow> str_nat n = [digit_char n]"
  by (simp add: str_nat.simps)

lemma str_nat_large: "\<not> n < 10 \<Longrightarrow> str_nat n = str_nat (n div 10) @ [digit_char (n mod 10)]"
  by (subst str_nat.simps) simp

lemma digit_char_inj: "a < 10 \<Longrightarrow> b < 10 \<Longrightarrow> digit_char a = digit_char b \<Longrightarrow> a = b"
  by (simp add: digit_char_def char_of_eq_iff take_bit_eq_mod)

lemma digit_char_not_colon: "a < 10 \<Longrightarrow> CHR '':'' \<noteq> digit_char a"
  using char_of_eq_iff [of "48 + a" "CHR '':''"]
  by (auto simp add: digit_char_def take_bit_eq_mod)

lemma str_nat_length: "length (str_nat n) = 1 \<longleftrightarrow> n < 10"
  by (subst str_nat.simps) (simp add: str_nat_nonempty)

lemma str_nat_no_colon: "CHR '':'' \<notin> set (str_nat n)"
proof (induction n rule: str_nat.induct)
  case (1 n)
  show ?case
  proof (cases "n < 10")
    case True
    then show ?thesis by (simp add: str_nat_small digit_char_not_colon)
  next
    case False
    then have "CHR '':'' \<notin> set (str_nat (n div 10))" using 1 by simp
    moreover have "CHR '':'' \<noteq> digit_char (n mod 10)" by (simp add: digit_char_not_colon)
    ultimately show ?thesis using False by (simp add: str_nat_large)
  qed
qed

lemma str_nat_inj: "str_nat a = str_nat b \<Longrightarrow> a = b"
proof (induction a arbitrary: b rule: str_nat.induct)
  case (1 a)
  show ?case
  proof (cases "a < 10")
    case True
    have "b < 10"
      using True 1(2) str_nat_length [of a] str_nat_length [of b] by simp
    with True 1(2) show ?thesis by (simp add: str_nat_small digit_char_inj)
  next
    case False
    have nb: "\<not> b < 10"
      using False 1(2) str_nat_length [of a] str_nat_length [of b] by simp
    from False nb 1(2) have h: "str_nat (a div 10) = str_nat (b div 10)"
      and d: "digit_char (a mod 10) = digit_char (b mod 10)"
      by (simp_all add: str_nat_large)
    from 1(1)[OF False h] have "a div 10 = b div 10" .
    moreover from d have "a mod 10 = b mod 10" by (simp add: digit_char_inj)
    ultimately show ?thesis by (metis div_mult_mod_eq)
  qed
qed

lemma split_at_sep:
  "c \<notin> set s1 \<Longrightarrow> c \<notin> set s2 \<Longrightarrow> s1 @ c # r1 = s2 @ c # r2 \<Longrightarrow> s1 = s2 \<and> r1 = r2"
proof (induction s1 arbitrary: s2)
  case Nil
  then show ?case by (cases s2) auto
next
  case (Cons a s1)
  then show ?case by (cases s2) auto
qed

subsection \<open>Tags\<close>

lemma tag_inj: "tag i @ r1 = tag k @ r2 \<Longrightarrow> i = k \<and> r1 = r2"
proof -
  assume "tag i @ r1 = tag k @ r2"
  then have "str_nat (i + 1) @ CHR '':'' # (CHR '' '' # r1)
           = str_nat (k + 1) @ CHR '':'' # (CHR '' '' # r2)"
    by (simp add: tag_def)
  then have "str_nat (i + 1) = str_nat (k + 1) \<and> CHR '' '' # r1 = CHR '' '' # r2"
    by (rule split_at_sep [OF str_nat_no_colon str_nat_no_colon])
  then show ?thesis using str_nat_inj [of "i + 1" "k + 1"] by simp
qed

lemma tag_prefix_inj:
  assumes "prefix (tag i) m" and "prefix (tag k) m"
  shows "i = k"
proof -
  from assms obtain r1 r2 where "m = tag i @ r1" and "m = tag k @ r2"
    unfolding prefix_def by blast
  then have "tag i @ r1 = tag k @ r2" by simp
  then show ?thesis by (rule tag_inj [THEN conjunct1])
qed

subsection \<open>Single checks\<close>

lemma field_check_cases:
  assumes "field_check f c rep t a = Inr a'"
  obtains (absent) "map_of t f = None" "a' = a"
    | (holds) v where "map_of t f = Some v" "c v = Inr True" "a' = rep v a"
    | (fails) v where "map_of t f = Some v" "c v = Inr False" "a' = a"
proof (cases "map_of t f")
  case None
  with assms have "a' = a" by (simp add: field_check_def)
  with None show ?thesis by (rule absent)
next
  case v: (Some v)
  show ?thesis
  proof (cases "c v")
    case (Inl e)
    with v assms show ?thesis by (simp add: field_check_def)
  next
    case (Inr b)
    show ?thesis
    proof (cases b)
      case True
      with Inr v assms have "a' = rep v a" by (simp add: field_check_def)
      with v Inr True show ?thesis by (simp add: holds)
    next
      case False
      with Inr v assms have "a' = a" by (simp add: field_check_def)
      with v Inr False show ?thesis by (simp add: fails)
    qed
  qed
qed

lemma field_check_error:
  assumes "field_check f c (\<lambda>v. add_error (g v)) t (es, ws) = Inr (es', ws')"
  shows "ws' = ws \<and> es' = es @ (case map_of t f of None \<Rightarrow> []
            | Some v \<Rightarrow> if c v = Inr True then [g v] else [])"
  using assms
  by (cases rule: field_check_cases) (simp_all add: add_error_def)

lemma field_check_warning:
  assumes "field_check f c (\<lambda>v. add_warning (g v)) t (es, ws) = Inr (es', ws')"
  shows "es' = es \<and> ws' = ws @ (case map_of t f of None \<Rightarrow> []
            | Some v \<Rightarrow> if c v = Inr True then [g v] else [])"
  using assms
  by (cases rule: field_check_cases) (simp_all add: add_warning_def)

lemma check_required_effect:
  "check_required i t fs (es, ws) =
     (es @ map (missing_msg i) (filter (\<lambda>f. map_of t f = None) fs), ws)"
  by (induction fs arbitrary: es) (simp_all add: add_error_def)

lemma float_minus_Inr:
  assumes "float_minus c v = Inr difference"
  shows "\<exists>x. as_number v = Some x \<and> difference = c - x"
  using assms by (cases v) (simp_all add: float_minus_def split: if_splits)

lemma compare_times_effect:
  assumes "compare_times L i t d1 d2 (es, ws) = Inr (es', ws')"
  shows "\<exists>b. dt_le d2 d1 = Inr b \<and> es' = es @ (if b then [exit_before_msg i] else [])
     \<and> (case map_of t ''duration_seconds'' of
          None \<Rightarrow> ws' = ws
        | Some stored \<Rightarrow> (\<exists>x us. as_number stored = Some x \<and> dt_sub d2 d1 = Inr us
             \<and> ws' = ws @ (if \<bar>total_seconds us - x\<bar> > 1
                            then [mismatch_msg L i (total_seconds us) stored] else [])))"
proof (cases "dt_le d2 d1")
  case (Inl e)
  with assms show ?thesis by (simp add: compare_times_def)
next
  case b: (Inr b)
  define es1 where "es1 = es @ (if b then [exit_before_msg i] else [])"
  have a1: "(if b then add_error (exit_before_msg i) (es, ws) else (es, ws)) = (es1, ws)"
    by (simp add: es1_def add_error_def)
  show ?thesis
  proof (cases "map_of t ''duration_seconds''")
    case None
    with assms b a1 have "es' = es1" "ws' = ws" by (simp_all add: compare_times_def Let_def)
    with b None show ?thesis by (simp add: es1_def)
  next
    case stored: (Some stored)
    show ?thesis
    proof (cases "dt_sub d2 d1")
      case (Inl e)
      with assms b stored show ?thesis by (simp add: compare_times_def)
    next
      case us: (Inr us)
      show ?thesis
      proof (cases "float_minus (total_seconds us) stored")
        case (Inl e)
        with assms b stored us show ?thesis by (simp add: compare_times_def)
      next
        case diff: (Inr difference)
        from float_minus_Inr [OF diff] obtain x where x: "as_number stored = Some x"
          and difference: "difference = total_seconds us - x" by blast
        from assms b stored us diff a1 have
          "(if \<bar>difference\<bar> > 1
            then add_warning (mismatch_msg L i (total_seconds us) stored) (es1, ws)
            else (es1, ws)) = (es', ws')"
          by (simp add: compare_times_def Let_def)
        with difference have
          "(if \<bar>total_seconds us - x\<bar> > 1
            then add_warning (mismatch_msg L i (total_seconds us) stored) (es1, ws)
            else (es1, ws)) = (es', ws')"
          by simp
        then have "es' = es1" and
          "ws' = ws @ (if \<bar>total_seconds us - x\<bar> > 1
                       then [mismatch_msg L i (total_seconds us) stored] else [])"
          by (simp_all add: add_warning_def split: if_splits)
        with b stored us x show ?thesis by (simp add: es1_def)
      qed
    qed
  qed
qed


lemma check_times_cases:
  assumes "check_times L i t (es, ws) = Inr (es', ws')"
  obtains (skip) "es' = es" "ws' = ws"
    | (bad) e where "es' = es @ [invalid_datetime_msg i e]" "ws' = ws"
    | (cmp) d1 d2 where "compare_times L i t d1 d2 (es, ws) = Inr (es', ws')"
proof (cases "map_of t ''entry_time''")
  case None
  with assms have "es' = es" "ws' = ws" by (simp_all add: check_times_def)
  then show ?thesis by (rule skip)
next
  case ve: (Some ve)
  show ?thesis
  proof (cases "map_of t ''exit_time''")
    case None
    with ve assms have "es' = es" "ws' = ws" by (simp_all add: check_times_def)
    then show ?thesis by (rule skip)
  next
    case vx: (Some vx)
    show ?thesis
    proof (cases "parse_time L ve")
      case (Inl e)
      with ve vx assms show ?thesis by (simp add: check_times_def)
    next
      case pe: (Inr pe)
      show ?thesis
      proof (cases pe)
        case (Inl msg)
        with pe ve vx assms have "es' = es @ [invalid_datetime_msg i msg]" "ws' = ws"
          by (simp_all add: check_times_def add_error_def)
        then show ?thesis by (rule bad)
      next
        case d1: (Inr d1)
        show ?thesis
        proof (cases "parse_time L vx")
          case (Inl e)
          with d1 pe ve vx assms show ?thesis by (simp add: check_times_def)
        next
          case px: (Inr px)
          show ?thesis
          proof (cases px)
            case (Inl msg)
            with px d1 pe ve vx assms have "es' = es @ [invalid_datetime_msg i msg]" "ws' = ws"
              by (simp_all add: check_times_def add_error_def)
            then show ?thesis by (rule bad)
          next
            case (Inr d2)
            with px d1 pe ve vx assms have "compare_times L i t d1 d2 (es, ws) = Inr (es', ws')"
              by (simp add: check_times_def)
            then show ?thesis by (rule cmp)
          qed
        qed
      qed
    qed
  qed
qed

lemma check_times_kinds:
  assumes "check_times L i t (es, ws) = Inr (es', ws')"
  shows "\<exists>de dw. es' = es @ de \<and> ws' = ws @ dw
     \<and> (de = [] \<or> de = [exit_before_msg i] \<or> (\<exists>e. de = [invalid_datetime_msg i e]))
     \<and> (dw = [] \<or> (\<exists>c s. dw = [mismatch_msg L i c s]))"
  using assms
proof (cases rule: check_times_cases)
  case skip
  then have "es' = es @ [] \<and> ws' = ws @ []
     \<and> ([] = [] \<or> [] = [exit_before_msg i] \<or> (\<exists>e. [] = [invalid_datetime_msg i e]))
     \<and> ([] = [] \<or> (\<exists>c s. [] = [mismatch_msg L i c s]))"
    by simp
  then show ?thesis by (intro exI)
next
  case (bad e)
  let ?de = "[invalid_datetime_msg i e]"
  have "\<exists>e. ?de = [invalid_datetime_msg i e]" by (intro exI) (rule refl)
  with bad have "es' = es @ ?de \<and> ws' = ws @ []
     \<and> (?de = [] \<or> ?de = [exit_before_msg i] \<or> (\<exists>e. ?de = [invalid_datetime_msg i e]))
     \<and> ([] = [] \<or> (\<exists>c s. [] = [mismatch_msg L i c s]))"
    by simp
  then show ?thesis by (intro exI)
next
  case (cmp d1 d2)
  from compare_times_effect [OF cmp] obtain b where
    *: "dt_le d2 d1 = Inr b \<and> es' = es @ (if b then [exit_before_msg i] else [])
     \<and> (case map_of t ''duration_seconds'' of
          None \<Rightarrow> ws' = ws
        | Some stored \<Rightarrow> (\<exists>x us. as_number stored = Some x \<and> dt_sub d2 d1 = Inr us
             \<and> ws' = ws @ (if \<bar>total_seconds us - x\<bar> > 1
                            then [mismatch_msg L i (total_seconds us) stored] else [])))" ..
  define de where "de = (if b then [exit_before_msg i] else [])"
  have E: "es' = es @ de" "de = [] \<or> de = [exit_before_msg i]"
    using * by (simp_all add: de_def)
  have W: "\<exists>dw. ws' = ws @ dw \<and> (dw = [] \<or> (\<exists>c s. dw = [mismatch_msg L i c s]))"
  proof (cases "map_of t ''duration_seconds''")
    case None
    with * have "ws' = ws @ [] \<and> ([] = [] \<or> (\<exists>c s. [] = [mismatch_msg L i c s]))" by simp
    then show ?thesis by (intro exI)
  next
    case (Some stored)
    with * obtain x us where
      ws': "ws' = ws @ (if \<bar>total_seconds us - x\<bar> > 1
                   then [mismatch_msg L i (total_seconds us) stored] else [])"
      by auto
    show ?thesis
    proof (cases "\<bar>total_seconds us - x\<bar> > 1")
      case True
      let ?dw = "[mismatch_msg L i (total_seconds us) stored]"
      from True ws' have "ws' = ws @ ?dw" by simp
      moreover have "\<exists>c s. ?dw = [mismatch_msg L i c s]" by (intro exI) (rule refl)
      ultimately show ?thesis by blast
    next
      case False
      with ws' have "ws' = ws @ [] \<and> ([] = [] \<or> (\<exists>c s. [] = [mismatch_msg L i c s]))" by simp
      then show ?thesis by (intro exI)
    qed
  qed
  then obtain dw where "ws' = ws @ dw" "dw = [] \<or> (\<exists>c s. dw = [mismatch_msg L i c s])"
    by blast
  with E show ?thesis by blast
qed


lemma compare_times_append_eq:
  "compare_times L i t d1 d2 (es, ws) =
     (case compare_times L i t d1 d2 ([], []) of
        Inl e \<Rightarrow> Inl e
      | Inr (de, dw) \<Rightarrow> Inr (es @ de, ws @ dw))"
  by (simp add: compare_times_def add_error_def add_warning_def Let_def
        split: sum.splits option.splits)

lemma check_times_append_eq:
  "check_times L i t (es, ws) =
     (case check_times L i t ([], []) of
        Inl e \<Rightarrow> Inl e
      | Inr (de, dw) \<Rightarrow> Inr (es @ de, ws @ dw))"
proof (cases "map_of t ''entry_time''")
  case None
  then show ?thesis by (simp add: check_times_def)
next
  case ve: (Some ve)
  show ?thesis
  proof (cases "map_of t ''exit_time''")
    case None
    with ve show ?thesis by (simp add: check_times_def)
  next
    case vx: (Some vx)
    show ?thesis
    proof (cases "parse_time L ve")
      case (Inl e)
      with ve vx show ?thesis by (simp add: check_times_def)
    next
      case pe: (Inr pe)
      show ?thesis
      proof (cases pe)
        case (Inl msg)
        with pe ve vx show ?thesis by (simp add: check_times_def add_error_def)
      next
        case d1: (Inr d1)
        show ?thesis
        proof (cases "parse_time L vx")
          case (Inl e)
          with d1 pe ve vx show ?thesis by (simp add: check_times_def)
        next
          case px: (Inr px)
          show ?thesis
          proof (cases px)
            case (Inl msg)
            with px d1 pe ve vx show ?thesis by (simp add: check_times_def add_error_def)
          next
            case (Inr d2)
            with px d1 pe ve vx have
              "check_times L i t (es, ws) = compare_times L i t d1 d2 (es, ws)"
              "check_times L i t ([], []) = compare_times L i t d1 d2 ([], [])"
              by (simp_all add: check_times_def)
            then show ?thesis using compare_times_append_eq [of L i t d1 d2 es ws] by simp
          qed
        qed
      qed
    qed
  qed
qed

lemma check_times_append:
  assumes "check_times L i t (es, ws) = Inr (es', ws')"
  shows "\<exists>de dw. check_times L i t ([], []) = Inr (de, dw) \<and> es' = es @ de \<and> ws' = ws @ dw"
proof (cases "check_times L i t ([], [])")
  case (Inl e)
  with assms check_times_append_eq [of L i t es ws] show ?thesis by simp
next
  case (Inr d)
  obtain de dw where d: "d = (de, dw)" by (cases d)
  with Inr assms check_times_append_eq [of L i t es ws] have "es' = es @ de" "ws' = ws @ dw"
    by simp_all
  with Inr d show ?thesis by simp
qed

subsection \<open>One record\<close>

lemma run_checks_ConsE:
  assumes "run_checks (c # cs) a = Inr b"
  obtains es1 ws1 where "c a = Inr (es1, ws1)" and "run_checks cs (es1, ws1) = Inr b"
proof (cases "c a")
  case (Inl e)
  with assms show ?thesis by simp
next
  case (Inr a')
  with assms have "run_checks cs a' = Inr b" by simp
  with Inr show ?thesis by (cases a') (auto intro: that)
qed

lemma verify_one_effect:
  assumes "verify_one L i t (es, ws) = Inr (es', ws')"
  obtains E1 E2 E3 de W1 W2 W3 W4 dw where
      "es' = es @ map (missing_msg i) (filter (\<lambda>f. map_of t f = None) required_fields)
               @ E1 @ E2 @ E3 @ de"
    and "ws' = ws @ W1 @ W2 @ W3 @ W4 @ dw"
    and "E1 = [] \<or> (\<exists>r. E1 = [tag i @ ''Invalid entry_price ('' @ r])"
    and "E2 = [] \<or> (\<exists>r. E2 = [tag i @ ''Invalid exit_price ('' @ r])"
    and "E3 = (case map_of t ''pnl'' of None \<Rightarrow> []
             | Some v \<Rightarrow> if \<not> isinstance_int_float v
                 then [tag i @ ''Invalid pnl type ('' @ type_repr v @ '')''] else [])"
    and "W1 = [] \<or> (\<exists>r. W1 = [tag i @ ''Negative duration ('' @ r])"
    and "W2 = [] \<or> (\<exists>r. W2 = [tag i @ ''Trend strength out of range ('' @ r])"
    and "W3 = [] \<or> (\<exists>r. W3 = [tag i @ ''Negative volatility ('' @ r])"
    and "W4 = [] \<or> (\<exists>r. W4 = [tag i @ ''Unknown market regime ('' @ r])"
    and "check_times L i t ([], []) = Inr (de, dw)"
proof -
  define M where "M = map (missing_msg i) (filter (\<lambda>f. map_of t f = None) required_fields)"
  have a0: "check_required i t required_fields (es, ws) = (es @ M, ws)"
    by (simp add: check_required_effect M_def)
  let ?c1 = "field_check ''entry_price'' (num_test (\<lambda>x. x \<le> 0))
          (\<lambda>v. add_error (tag i @ ''Invalid entry_price ('' @ py_str L v @ '')'')) t"
  let ?c2 = "field_check ''exit_price'' (num_test (\<lambda>x. x \<le> 0))
          (\<lambda>v. add_error (tag i @ ''Invalid exit_price ('' @ py_str L v @ '')'')) t"
  let ?c3 = "field_check ''pnl'' (\<lambda>v. Inr (\<not> isinstance_int_float v))
          (\<lambda>v. add_error (tag i @ ''Invalid pnl type ('' @ type_repr v @ '')'')) t"
  let ?c4 = "field_check ''duration_seconds'' (num_test (\<lambda>x. x < 0))
          (\<lambda>v. add_warning (tag i @ ''Negative duration ('' @ py_str L v @ ''s)'')) t"
  let ?c5 = "field_check ''trend_strength'' (num_test (\<lambda>x. \<not> (0 \<le> x \<and> x \<le> 1)))
          (\<lambda>v. add_warning (tag i @ ''Trend strength out of range ('' @ py_str L v @ '')'')) t"
  let ?c6 = "field_check ''volatility'' (num_test (\<lambda>x. x < 0))
          (\<lambda>v. add_warning (tag i @ ''Negative volatility ('' @ py_str L v @ '')'')) t"
  let ?c7 = "field_check ''market_regime'' (\<lambda>v. Inr (v \<notin> set valid_regimes))
          (\<lambda>v. add_warning (tag i @ ''Unknown market regime ('' @ py_str L v @ '')'')) t"
  let ?c8 = "check_times L i t"
  from assms have "run_checks [?c1, ?c2, ?c3, ?c4, ?c5, ?c6, ?c7, ?c8] (es @ M, ws) = Inr (es', ws')"
    by (simp only: verify_one_def a0)
  then obtain es1 ws1 where c1: "?c1 (es @ M, ws) = Inr (es1, ws1)"
    and r1: "run_checks [?c2, ?c3, ?c4, ?c5, ?c6, ?c7, ?c8] (es1, ws1) = Inr (es', ws')"
    by (rule run_checks_ConsE)
  from r1 obtain es2 ws2 where c2: "?c2 (es1, ws1) = Inr (es2, ws2)"
    and r2: "run_checks [?c3, ?c4, ?c5, ?c6, ?c7, ?c8] (es2, ws2) = Inr (es', ws')"
    by (rule run_checks_ConsE)
  from r2 obtain es3 ws3 where c3: "?c3 (es2, ws2) = Inr (es3, ws3)"
    and r3: "run_checks [?c4, ?c5, ?c6, ?c7, ?c8] (es3, ws3) = Inr (es', ws')"
    by (rule run_checks_ConsE)
  from r3 obtain es4 ws4 where c4: "?c4 (es3, ws3) = Inr (es4, ws4)"
    and r4: "run_checks [?c5, ?c6, ?c7, ?c8] (es4, ws4) = Inr (es', ws')"
    by (rule run_checks_ConsE)
  from r4 obtain es5 ws5 where c5: "?c5 (es4, ws4) = Inr (es5, ws5)"
    and r5: "run_checks [?c6, ?c7, ?c8] (es5, ws5) = Inr (es', ws')"
    by (rule run_checks_ConsE)
  from r5 obtain es6 ws6 where c6: "?c6 (es5, ws5) = Inr (es6, ws6)"
    and r6: "run_checks [?c7, ?c8] (es6, ws6) = Inr (es', ws')"
    by (rule run_checks_ConsE)
  from r6 obtain es7 ws7 where c7: "?c7 (es6, ws6) = Inr (es7, ws7)"
    and r7: "run_checks [?c8] (es7, ws7) = Inr (es', ws')"
    by (rule run_checks_ConsE)
  from r7 have c8: "check_times L i t (es7, ws7) = Inr (es', ws')"
    by (cases "check_times L i t (es7, ws7)") simp_all
  define E1 where "E1 = (case map_of t ''entry_price'' of None \<Rightarrow> []
      | Some v \<Rightarrow> if num_test (\<lambda>x. x \<le> 0) v = Inr True
          then [tag i @ ''Invalid entry_price ('' @ py_str L v @ '')''] else [])"
  define E2 where "E2 = (case map_of t ''exit_price'' of None \<Rightarrow> []
      | Some v \<Rightarrow> if num_test (\<lambda>x. x \<le> 0) v = Inr True
          then [tag i @ ''Invalid exit_price ('' @ py_str L v @ '')''] else [])"
  define E3 where "E3 = (case map_of t ''pnl'' of None \<Rightarrow> []
      | Some v \<Rightarrow> if \<not> isinstance_int_float v
          then [tag i @ ''Invalid pnl type ('' @ type_repr v @ '')''] else [])"
  define W1 where "W1 = (case map_of t ''duration_seconds'' of None \<Rightarrow> []
      | Some v \<Rightarrow> if num_test (\<lambda>x. x < 0) v = Inr True
          then [tag i @ ''Negative duration ('' @ py_str L v @ ''s)''] else [])"
  define W2 where "W2 = (case map_of t ''trend_strength'' of None \<Rightarrow> []
      | Some v \<Rightarrow> if num_test (\<lambda>x. \<not> (0 \<le> x \<and> x \<le> 1)) v = Inr True
          then [tag i @ ''Trend strength out of range ('' @ py_str L v @ '')''] else [])"
  define W3 where "W3 = (case map_of t ''volatility'' of None \<Rightarrow> []
      | Some v \<Rightarrow> if num_test (\<lambda>x. x < 0) v = Inr True
          then [tag i @ ''Negative volatility ('' @ py_str L v @ '')''] else [])"
  define W4 where "W4 = (case map_of t ''market_regime'' of None \<Rightarrow> []
      | Some v \<Rightarrow> if v \<notin> set valid_regimes
          then [tag i @ ''Unknown market regime ('' @ py_str L v @ '')''] else [])"
  from field_check_error [OF c1] have s1: "ws1 = ws" "es1 = es @ M @ E1"
    by (simp_all add: E1_def)
  from field_check_error [OF c2] have s2: "ws2 = ws1" "es2 = es1 @ E2"
    by (simp_all add: E2_def)
  from field_check_error [OF c3] have s3: "ws3 = ws2" "es3 = es2 @ E3"
    by (simp_all add: E3_def cong: option.case_cong)
  from field_check_warning [OF c4] have s4: "es4 = es3" "ws4 = ws3 @ W1"
    by (simp_all add: W1_def)
  from field_check_warning [OF c5] have s5: "es5 = es4" "ws5 = ws4 @ W2"
    by (simp_all add: W2_def)
  from field_check_warning [OF c6] have s6: "es6 = es5" "ws6 = ws5 @ W3"
    by (simp_all add: W3_def)
  from field_check_warning [OF c7] have s7: "es7 = es6" "ws7 = ws6 @ W4"
    by (simp_all add: W4_def cong: option.case_cong)
  from check_times_append [OF c8] obtain de dw where
    s8: "check_times L i t ([], []) = Inr (de, dw)" "es' = es7 @ de" "ws' = ws7 @ dw"
    by blast
  have k1: "E1 = [] \<or> (\<exists>r. E1 = [tag i @ ''Invalid entry_price ('' @ r])"
    unfolding E1_def by (cases "map_of t ''entry_price''") auto
  have k2: "E2 = [] \<or> (\<exists>r. E2 = [tag i @ ''Invalid exit_price ('' @ r])"
    unfolding E2_def by (cases "map_of t ''exit_price''") auto
  have k4: "W1 = [] \<or> (\<exists>r. W1 = [tag i @ ''Negative duration ('' @ r])"
    unfolding W1_def by (cases "map_of t ''duration_seconds''") auto
  have k5: "W2 = [] \<or> (\<exists>r. W2 = [tag i @ ''Trend strength out of range ('' @ r])"
    unfolding W2_def by (cases "map_of t ''trend_strength''") auto
  have k6: "W3 = [] \<or> (\<exists>r. W3 = [tag i @ ''Negative volatility ('' @ r])"
    unfolding W3_def by (cases "map_of t ''volatility''") auto
  have k7: "W4 = [] \<or> (\<exists>r. W4 = [tag i @ ''Unknown market regime ('' @ r])"
    unfolding W4_def by (cases "map_of t ''market_regime''") auto
  have f1: "es' = es @ map (missing_msg i) (filter (\<lambda>f. map_of t f = None) required_fields)
               @ E1 @ E2 @ E3 @ de"
    using s1 s2 s3 s4 s5 s6 s7 s8 by (simp add: M_def)
  have f2: "ws' = ws @ W1 @ W2 @ W3 @ W4 @ dw" using s1 s2 s3 s4 s5 s6 s7 s8 by simp
  from f1 f2 k1 k2 E3_def k4 k5 k6 k7 s8(1) show ?thesis by (rule that)
qed

lemma verify_one_grows:
  assumes "verify_one L i t (es, ws) = Inr (es', ws')"
  shows "\<exists>de dw. es' = es @ de \<and> ws' = ws @ dw"
  using assms
proof (rule verify_one_effect)
  fix E1 E2 E3 de W1 W2 W3 W4 dw
  assume "es' = es @ map (missing_msg i) (filter (\<lambda>f. map_of t f = None) required_fields)
               @ E1 @ E2 @ E3 @ de"
    and "ws' = ws @ W1 @ W2 @ W3 @ W4 @ dw"
  then show ?thesis by (intro exI conjI)
qed

subsection \<open>The loop\<close>

lemma verify_loop_effect:
  assumes "verify_loop L i ts (es, ws) = Inr (es', ws')"
  shows "\<exists>D. length D = length ts
     \<and> es' = es @ concat (map fst D) \<and> ws' = ws @ concat (map snd D)
     \<and> (\<forall>k<length ts. \<exists>es0 ws0.
           verify_one L (i + k) (ts ! k) (es0, ws0) = Inr (es0 @ fst (D ! k), ws0 @ snd (D ! k)))"
  using assms
proof (induction ts arbitrary: i es ws)
  case Nil
  then have "length [] = length ([] :: pydict list)
     \<and> es' = es @ concat (map fst []) \<and> ws' = ws @ concat (map snd [])
     \<and> (\<forall>k<length ([] :: pydict list). \<exists>es0 ws0.
           verify_one L (i + k) ([] ! k) (es0, ws0) = Inr (es0 @ fst ([] ! k), ws0 @ snd ([] ! k)))"
    by simp
  then show ?case by (rule exI)
next
  case (Cons t ts)
  from Cons.prems obtain a1 where one: "verify_one L i t (es, ws) = Inr a1"
    and rest: "verify_loop L (i + 1) ts a1 = Inr (es', ws')"
    by (cases "verify_one L i t (es, ws)") simp_all
  obtain es1 ws1 where a1: "a1 = (es1, ws1)" by (cases a1)
  from verify_one_grows [OF one [unfolded a1]] obtain de dw where
    d: "es1 = es @ de" "ws1 = ws @ dw" by blast
  from Cons.IH [OF rest [unfolded a1]] obtain D where
    D: "length D = length ts" "es' = es1 @ concat (map fst D)" "ws' = ws1 @ concat (map snd D)"
    and each: "\<forall>k<length ts. \<exists>es0 ws0.
           verify_one L (i + 1 + k) (ts ! k) (es0, ws0)
             = Inr (es0 @ fst (D ! k), ws0 @ snd (D ! k))"
    by blast
  let ?D = "(de, dw) # D"
  have "\<forall>k<length (t # ts). \<exists>es0 ws0.
           verify_one L (i + k) ((t # ts) ! k) (es0, ws0)
             = Inr (es0 @ fst (?D ! k), ws0 @ snd (?D ! k))"
  proof (intro allI impI)
    fix k assume k: "k < length (t # ts)"
    show "\<exists>es0 ws0. verify_one L (i + k) ((t # ts) ! k) (es0, ws0)
             = Inr (es0 @ fst (?D ! k), ws0 @ snd (?D ! k))"
    proof (cases k)
      case 0
      with one a1 d have "verify_one L (i + k) ((t # ts) ! k) (es, ws)
             = Inr (es @ fst (?D ! k), ws @ snd (?D ! k))" by simp
      then show ?thesis by (intro exI)
    next
      case (Suc k')
      with k each have "\<exists>es0 ws0. verify_one L (i + 1 + k') (ts ! k') (es0, ws0)
             = Inr (es0 @ fst (D ! k'), ws0 @ snd (D ! k'))" by simp
      with Suc show ?thesis by simp
    qed
  qed
  moreover have "length ?D = length (t # ts)" using D by simp
  moreover have "es' = es @ concat (map fst ?D)" using D d by simp
  moreover have "ws' = ws @ concat (map snd ?D)" using D d by simp
  ultimately have "length ?D = length (t # ts)
     \<and> es' = es @ concat (map fst ?D) \<and> ws' = ws @ concat (map snd ?D)
     \<and> (\<forall>k<length (t # ts). \<exists>es0 ws0.
           verify_one L (i + k) ((t # ts) ! k) (es0, ws0)
             = Inr (es0 @ fst (?D ! k), ws0 @ snd (?D ! k)))"
    by simp
  then show ?case by (rule exI)
qed

lemma filter_concat_select:
  assumes "j < length xss"
    and "\<forall>k<length xss. k \<noteq> j \<longrightarrow> (\<forall>m\<in>set (xss ! k). \<not> P m)"
  shows "filter P (concat xss) = filter P (xss ! j)"
  using assms
proof (induction xss arbitrary: j)
  case Nil
  then show ?case by simp
next
  case (Cons xs xss)
  show ?case
  proof (cases j)
    case 0
    have "\<forall>ys\<in>set xss. \<forall>m\<in>set ys. \<not> P m"
    proof
      fix ys assume "ys \<in> set xss"
      then obtain k where "k < length xss" "ys = xss ! k" by (auto simp add: in_set_conv_nth)
      with Cons.prems(2) [rule_format, of "Suc k"] 0 show "\<forall>m\<in>set ys. \<not> P m" by simp
    qed
    then have "filter P (concat xss) = []" by (auto simp add: filter_empty_conv)
    with 0 show ?thesis by simp
  next
    case (Suc j')
    from Cons.prems(2) [rule_format, of 0] Suc have "filter P xs = []"
      by (auto simp add: filter_empty_conv)
    moreover have "filter P (concat xss) = filter P (xss ! j')"
    proof (rule Cons.IH)
      show "j' < length xss" using Cons.prems(1) Suc by simp
      show "\<forall>k<length xss. k \<noteq> j' \<longrightarrow> (\<forall>m\<in>set (xss ! k). \<not> P m)"
      proof (intro allI impI)
        fix k assume "k < length xss" "k \<noteq> j'"
        with Cons.prems(2) [rule_format, of "Suc k"] Suc show "\<forall>m\<in>set (xss ! k). \<not> P m" by simp
      qed
    qed
    ultimately show ?thesis using Suc by simp
  qed
qed


subsection \<open>The report\<close>

lemma verify_one_tagged:
  assumes "verify_one L k t (es0, ws0) = Inr (es0 @ de, ws0 @ dw)"
  shows "\<forall>m\<in>set de \<union> set dw. prefix (tag k) m"
  using assms
proof (rule verify_one_effect)
  fix E1 E2 E3 te W1 W2 W3 W4 tw
  assume e: "es0 @ de = es0 @ map (missing_msg k) (filter (\<lambda>f. map_of t f = None) required_fields)
               @ E1 @ E2 @ E3 @ te"
    and w: "ws0 @ dw = ws0 @ W1 @ W2 @ W3 @ W4 @ tw"
    and k1: "E1 = [] \<or> (\<exists>r. E1 = [tag k @ ''Invalid entry_price ('' @ r])"
    and k2: "E2 = [] \<or> (\<exists>r. E2 = [tag k @ ''Invalid exit_price ('' @ r])"
    and k3: "E3 = (case map_of t ''pnl'' of None \<Rightarrow> []
             | Some v \<Rightarrow> if \<not> isinstance_int_float v
                 then [tag k @ ''Invalid pnl type ('' @ type_repr v @ '')''] else [])"
    and k4: "W1 = [] \<or> (\<exists>r. W1 = [tag k @ ''Negative duration ('' @ r])"
    and k5: "W2 = [] \<or> (\<exists>r. W2 = [tag k @ ''Trend strength out of range ('' @ r])"
    and k6: "W3 = [] \<or> (\<exists>r. W3 = [tag k @ ''Negative volatility ('' @ r])"
    and k7: "W4 = [] \<or> (\<exists>r. W4 = [tag k @ ''Unknown market regime ('' @ r])"
    and ct: "check_times L k t ([], []) = Inr (te, tw)"
  from check_times_kinds [OF ct] have
    t1: "te = [] \<or> te = [exit_before_msg k] \<or> (\<exists>e. te = [invalid_datetime_msg k e])"
    and t2: "tw = [] \<or> (\<exists>c s. tw = [mismatch_msg L k c s])"
    by simp_all
  have p1: "\<forall>m\<in>set E1. prefix (tag k) m" using k1 by auto
  have p2: "\<forall>m\<in>set E2. prefix (tag k) m" using k2 by auto
  have p3: "\<forall>m\<in>set E3. prefix (tag k) m" using k3 by (cases "map_of t ''pnl''") auto
  have p4: "\<forall>m\<in>set W1. prefix (tag k) m" using k4 by auto
  have p5: "\<forall>m\<in>set W2. prefix (tag k) m" using k5 by auto
  have p6: "\<forall>m\<in>set W3. prefix (tag k) m" using k6 by auto
  have p7: "\<forall>m\<in>set W4. prefix (tag k) m" using k7 by auto
  have p8: "\<forall>m\<in>set te. prefix (tag k) m"
    using t1 by (auto simp add: exit_before_msg_def invalid_datetime_msg_def)
  have p9: "\<forall>m\<in>set tw. prefix (tag k) m"
    using t2 by (auto simp add: mismatch_msg_def)
  have p0: "\<forall>m\<in>set (map (missing_msg k) (filter (\<lambda>f. map_of t f = None) required_fields)).
              prefix (tag k) m"
    by (simp add: missing_msg_def)
  from e have "de = map (missing_msg k) (filter (\<lambda>f. map_of t f = None) required_fields)
               @ E1 @ E2 @ E3 @ te" by simp
  with p0 p1 p2 p3 p8 have "\<forall>m\<in>set de. prefix (tag k) m" by auto
  moreover from w have "dw = W1 @ W2 @ W3 @ W4 @ tw" by simp
  with p4 p5 p6 p7 p9 have "\<forall>m\<in>set dw. prefix (tag k) m" by auto
  ultimately show ?thesis by blast
qed

lemma report_select:
  assumes ret: "verify_trade_data L trades = Inr report"
    and i: "i < length trades"
    and P: "\<And>m. P m \<Longrightarrow> prefix (tag i) m"
  obtains errors warnings es0 ws0 de dw where
    "map_of report ''errors'' = Some (JList (map JStr errors))"
    and "map_of report ''warnings'' = Some (JList (map JStr warnings))"
    and "verify_one L i (trades ! i) (es0, ws0) = Inr (es0 @ de, ws0 @ dw)"
    and "filter P errors = filter P de"
    and "filter P warnings = filter P dw"
proof -
  from i have ne: "trades \<noteq> []" by auto
  from ret ne obtain a where loop: "verify_loop L 0 trades ([], []) = Inr a"
    by (cases "verify_loop L 0 trades ([], [])") (simp_all add: verify_trade_data_def)
  obtain errors warnings where a: "a = (errors, warnings)" by (cases a)
  from ret ne loop a have rep: "report =
     [(''valid'', JBool (length errors = 0)), (''errors'', JList (map JStr errors)),
      (''warnings'', JList (map JStr warnings)), (''total_trades'', JInt (int (length trades)))]"
    by (simp add: verify_trade_data_def)
  from verify_loop_effect [OF loop [unfolded a]] obtain D where
    len: "length D = length trades"
    and es: "errors = concat (map fst D)" and ws: "warnings = concat (map snd D)"
    and each: "\<forall>k<length trades. \<exists>es0 ws0.
        verify_one L (0 + k) (trades ! k) (es0, ws0) = Inr (es0 @ fst (D ! k), ws0 @ snd (D ! k))"
    by auto
  have other: "\<forall>m\<in>set (fst (D ! k)) \<union> set (snd (D ! k)). \<not> P m"
    if k: "k < length trades" "k \<noteq> i" for k
  proof
    fix m assume m: "m \<in> set (fst (D ! k)) \<union> set (snd (D ! k))"
    from each k obtain es0 ws0 where
      "verify_one L k (trades ! k) (es0, ws0) = Inr (es0 @ fst (D ! k), ws0 @ snd (D ! k))"
      by auto
    from verify_one_tagged [OF this] m have "prefix (tag k) m" by blast
    show "\<not> P m"
    proof
      assume "P m"
      then have "prefix (tag i) m" by (rule P)
      with \<open>prefix (tag k) m\<close> have "k = i" by (rule tag_prefix_inj)
      with k show False by simp
    qed
  qed
  have "filter P (concat (map fst D)) = filter P (map fst D ! i)"
  proof (rule filter_concat_select)
    show "i < length (map fst D)" using i len by simp
    show "\<forall>k<length (map fst D). k \<noteq> i \<longrightarrow> (\<forall>m\<in>set (map fst D ! k). \<not> P m)"
      using other len by simp
  qed
  then have fe: "filter P errors = filter P (fst (D ! i))" using es i len by simp
  have "filter P (concat (map snd D)) = filter P (map snd D ! i)"
  proof (rule filter_concat_select)
    show "i < length (map snd D)" using i len by simp
    show "\<forall>k<length (map snd D). k \<noteq> i \<longrightarrow> (\<forall>m\<in>set (map snd D ! k). \<not> P m)"
      using other len by simp
  qed
  then have fw: "filter P warnings = filter P (snd (D ! i))" using ws i len by simp
  from each i obtain es0 ws0 where
    one: "verify_one L i (trades ! i) (es0, ws0) = Inr (es0 @ fst (D ! i), ws0 @ snd (D ! i))"
    by auto
  have r1: "map_of report ''errors'' = Some (JList (map JStr errors))" using rep by simp
  have r2: "map_of report ''warnings'' = Some (JList (map JStr warnings))" using rep by simp
  from r1 r2 one fe fw show ?thesis by (rule that)
qed


subsection \<open>Counting\<close>





lemma segment_kind_0:
  assumes "X = [] \<or> (\<exists>r. X = [tag i @ K @ r])" and "\<And>r. \<not> prefix kind (K @ r)"
  shows "count_kind i kind X = 0"
  using assms by (auto simp add: count_kind_def)

lemma count_kind_append: "count_kind i kind (xs @ ys) = count_kind i kind xs + count_kind i kind ys"
  by (simp add: count_kind_def)

lemma count_kind_missing:
  assumes "\<And>r. \<not> prefix kind (''Missing required field '' @ r)"
  shows "count_kind i kind (map (missing_msg i) fs) = 0"
  using assms by (induction fs) (simp_all add: count_kind_def missing_msg_def)







subsection \<open>The exporter\<close>









subsection \<open>The transport client\<close>

lemma fetch_sent:
  "sent (snd (fetch L net self u ps nothing w))
     = sent w @ [\<lparr>url = u, params = ps, timeout = None\<rparr>]"
  by (simp add: fetch_def session_get_def Let_def print_line_def unwrap_data_def
        split: outcome.split sum.split json_failure.split jval.split)


subsection \<open>Evaluation on concrete inputs\<close>

lemma digit_char_values:
  "digit_char 0 = CHR ''0''" "digit_char 1 = CHR ''1''" "digit_char 2 = CHR ''2''"
  "digit_char 3 = CHR ''3''" "digit_char 4 = CHR ''4''" "digit_char 5 = CHR ''5''"
  "digit_char 6 = CHR ''6''" "digit_char 7 = CHR ''7''" "digit_char 8 = CHR ''8''"
  "digit_char 9 = CHR ''9''" "digit_char (Suc 0) = CHR ''1''"
  "digit_char (Suc (Suc 0)) = CHR ''2''" "digit_char (Suc (Suc (Suc 0))) = CHR ''3''"
  by code_simp+

lemmas eval_defs = verify_trade_data_def verify_one_def field_check_def check_times_def
  compare_times_def float_minus_def parse_time_def num_test_def required_fields_def valid_regimes_def
  add_error_def add_warning_def tag_def missing_msg_def mismatch_msg_def exit_before_msg_def
  invalid_datetime_msg_def replace_Z_def dt_le_def dt_sub_def total_seconds_def
  sample_lib_def sample_fromisoformat_def sample_format_0f_def sample_trade_def
  str_nat.simps digit_char_values AList.delete_eq


section \<open>Properties of the validator\<close>

text \<open>
  C1, empty input. The code returns a dictionary with the two keys \<^verbatim>\<open>valid\<close> and
  \<^verbatim>\<open>errors\<close> only: \<^verbatim>\<open>warnings\<close> and \<^verbatim>\<open>total_trades\<close>, which the report of a
  non-empty input has and which the caller reads, are absent.
\<close>

theorem verify_empty_report:
  "verify_trade_data L [] =
     Inr [(''valid'', JBool False), (''errors'', JList [JStr ''No trades found''])]
   \<and> map_sum id (\<lambda>r. (map_of r ''warnings'', map_of r ''total_trades'')) (verify_trade_data L [])
       = Inr (None, None)"
  by (simp add: verify_trade_data_def)

text \<open>
  C3, the valid flag. Whenever a report is returned, its \<^verbatim>\<open>errors\<close> entry is a list of
  strings and its \<^verbatim>\<open>valid\<close> entry is true exactly when that list is empty; the
  \<^verbatim>\<open>warnings\<close> entry plays no part.
\<close>

theorem valid_iff_no_errors:
  assumes "verify_trade_data L trades = Inr report"
  shows "\<exists>es. map_of report ''errors'' = Some (JList (map JStr es))
           \<and> map_of report ''valid'' = Some (JBool (es = []))"
proof (cases "trades = []")
  case True
  with assms have "report = [(''valid'', JBool False), (''errors'', JList [JStr ''No trades found''])]"
    by (simp add: verify_trade_data_def)
  then have "map_of report ''errors'' = Some (JList (map JStr [''No trades found'']))
      \<and> map_of report ''valid'' = Some (JBool ([''No trades found''] = []))"
    by simp
  then show ?thesis by blast
next
  case False
  with assms obtain errors warnings where
    "report = [(''valid'', JBool (length errors = 0)),
               (''errors'', JList (map JStr errors)),
               (''warnings'', JList (map JStr warnings)),
               (''total_trades'', JInt (int (length trades)))]"
    by (auto simp add: verify_trade_data_def split: sum.splits)
  then have "map_of report ''errors'' = Some (JList (map JStr errors))
      \<and> map_of report ''valid'' = Some (JBool (errors = []))"
    by simp
  then show ?thesis by blast
qed

text \<open>An input with a warning and no error: the report is valid.\<close>

theorem valid_iff_no_errors_witness:
  "(let trades = [AList.update ''trend_strength'' (JInt 2) sample_trade];
        report = [(''valid'', JBool True), (''errors'', JList []),
                  (''warnings'', JList [JStr ''Trade 1: Trend strength out of range (2)'']),
                  (''total_trades'', JInt 1)]
    in verify_trade_data sample_lib trades = Inr report
       \<and> (\<exists>es. map_of report ''errors'' = Some (JList (map JStr es))
              \<and> map_of report ''valid'' = Some (JBool (es = []))))"
  (is "let trades = ?T; report = ?R in _")
proof -
  have h: "verify_trade_data sample_lib ?T = Inr ?R"
    by (simp add: eval_defs)
  from h valid_iff_no_errors [OF h] show ?thesis
    unfolding Let_def by (intro conjI)
qed

text \<open>
  C2, wrong-typed fields. The validator does not return a report on every list of
  records: a string where a number is compared raises \<^verbatim>\<open>TypeError\<close> (line 183), and a
  timestamp that is not a string raises \<^verbatim>\<open>AttributeError\<close> at \<^verbatim>\<open>.replace\<close>
  (line 209), which \<^verbatim>\<open>except ValueError\<close> lets through. Both hold whatever the
  library functions are.
\<close>

theorem verify_raises_on_wrong_types:
  "verify_trade_data L [AList.update ''entry_price'' (JStr ''10.5'') sample_trade]
     = Inl TypeError
   \<and> verify_trade_data L [AList.update ''entry_time'' (JInt 1704067200) sample_trade]
       = Inl AttributeError"
  by (simp add: eval_defs)



text \<open>
  C10, boolean pnl. \<^verbatim>\<open>isinstance(True, (int, float))\<close> holds, since \<^verbatim>\<open>bool\<close> is a
  subclass of \<^verbatim>\<open>int\<close>: in a returned report no error of the record starts with
  \<^verbatim>\<open>Invalid pnl type\<close> when its \<^verbatim>\<open>pnl\<close> is a boolean.
\<close>

theorem boolean_pnl_accepted:
  assumes ret: "verify_trade_data L trades = Inr report"
    and i: "i < length trades"
    and pnl: "map_of (trades ! i) ''pnl'' = Some (JBool b)"
  shows "isinstance_int_float (JBool b)
     \<and> (\<exists>errors. map_of report ''errors'' = Some (JList (map JStr errors))
           \<and> count_kind i ''Invalid pnl type'' errors = 0)"
proof -
  let ?P = "prefix (tag i @ ''Invalid pnl type'')"
  have P: "\<And>m. ?P m \<Longrightarrow> prefix (tag i) m"
    by (rule append_prefixD)
  from ret i P obtain errors warnings es0 ws0 de dw where
    r1: "map_of report ''errors'' = Some (JList (map JStr errors))"
    and r2: "map_of report ''warnings'' = Some (JList (map JStr warnings))"
    and one: "verify_one L i (trades ! i) (es0, ws0) = Inr (es0 @ de, ws0 @ dw)"
    and fe: "filter ?P errors = filter ?P de"
    and fw: "filter ?P warnings = filter ?P dw"
    by (rule report_select)
  from one have "count_kind i ''Invalid pnl type'' de = 0"
  proof (rule verify_one_effect)
    fix E1 E2 E3 te W1 W2 W3 W4 tw
    let ?M = "map (missing_msg i) (filter (\<lambda>f. map_of (trades ! i) f = None) required_fields)"
    assume e: "es0 @ de = es0 @ ?M @ E1 @ E2 @ E3 @ te"
      and k1: "E1 = [] \<or> (\<exists>r. E1 = [tag i @ ''Invalid entry_price ('' @ r])"
      and k2: "E2 = [] \<or> (\<exists>r. E2 = [tag i @ ''Invalid exit_price ('' @ r])"
      and k3: "E3 = (case map_of (trades ! i) ''pnl'' of None \<Rightarrow> []
             | Some v \<Rightarrow> if \<not> isinstance_int_float v
                 then [tag i @ ''Invalid pnl type ('' @ type_repr v @ '')''] else [])"
      and ct: "check_times L i (trades ! i) ([], []) = Inr (te, tw)"
    from check_times_kinds [OF ct] have
      t1: "te = [] \<or> te = [exit_before_msg i] \<or> (\<exists>e. te = [invalid_datetime_msg i e])"
      by simp
    have c0: "count_kind i ''Invalid pnl type'' ?M = 0"
      by (rule count_kind_missing) simp
    have c1: "count_kind i ''Invalid pnl type'' E1 = 0"
      using k1 by (rule segment_kind_0) simp
    have c2: "count_kind i ''Invalid pnl type'' E2 = 0"
      using k2 by (rule segment_kind_0) simp
    have c3: "count_kind i ''Invalid pnl type'' E3 = 0"
      using k3 pnl by (simp add: count_kind_def)
    have c4: "count_kind i ''Invalid pnl type'' te = 0"
      using t1 by (auto simp add: count_kind_def exit_before_msg_def invalid_datetime_msg_def)
    from e have "de = ?M @ E1 @ E2 @ E3 @ te" by simp
    with c0 c1 c2 c3 c4 show ?thesis by (simp add: count_kind_append)
  qed
  with fe have "count_kind i ''Invalid pnl type'' errors = 0" by (simp add: count_kind_def)
  with r1 have "\<exists>errors. map_of report ''errors'' = Some (JList (map JStr errors))
           \<and> count_kind i ''Invalid pnl type'' errors = 0"
    by (intro exI conjI)
  then show ?thesis by simp
qed

theorem boolean_pnl_accepted_witness:
  "(let trades = [AList.update ''pnl'' (JBool True) sample_trade];
        report = [(''valid'', JBool True), (''errors'', JList []), (''warnings'', JList []),
                  (''total_trades'', JInt 1)]
    in verify_trade_data sample_lib trades = Inr report
       \<and> 0 < length trades
       \<and> map_of (trades ! 0) ''pnl'' = Some (JBool True)
       \<and> isinstance_int_float (JBool True)
       \<and> (\<exists>errors. map_of report ''errors'' = Some (JList (map JStr errors))
             \<and> count_kind 0 ''Invalid pnl type'' errors = 0))"
  (is "let trades = ?T; report = ?R in _")
proof -
  have h1: "verify_trade_data sample_lib ?T = Inr ?R"
    by (simp add: eval_defs)
  have h2: "0 < length ?T" by simp
  have h3: "map_of (?T ! 0) ''pnl'' = Some (JBool True)"
    by (simp add: sample_trade_def)
  from boolean_pnl_accepted [OF h1 h2 h3] have
    c1: "isinstance_int_float (JBool True)"
    and c2: "\<exists>errors. map_of ?R ''errors'' = Some (JList (map JStr errors))
             \<and> count_kind 0 ''Invalid pnl type'' errors = 0"
    by (rule conjunct1, rule conjunct2)
  from h1 h2 h3 c1 c2 show ?thesis
    unfolding Let_def by (intro conjI)
qed





section \<open>Properties of the exporter\<close>




section \<open>Properties of the transport client\<close>

text \<open>
  C5, request timeout. \<^verbatim>\<open>__init__\<close> stores 10 in an attribute of the session, but
  each of the three operations calls \<^verbatim>\<open>session.get\<close> without a \<^verbatim>\<open>timeout\<close>
  argument: the one request it issues carries no timeout.
\<close>

theorem requests_sent_without_timeout:
  "timeout_attr (session (init base)) = Some 10
   \<and> sent (snd (get_ml_trades L net (init base) pair limit w))
       = sent w @ [\<lparr>url = rstrip_slash base @ ''/ml/trades/'' @ pair,
                    params = [(''limit'', JInt limit)], timeout = None\<rparr>]
   \<and> sent (snd (get_ml_stats L net (init base) pair w))
       = sent w @ [\<lparr>url = rstrip_slash base @ ''/ml/stats/'' @ pair,
                    params = [], timeout = None\<rparr>]
   \<and> sent (snd (get_ml_status L net (init base) w))
       = sent w @ [\<lparr>url = rstrip_slash base @ ''/ml/status'',
                    params = [], timeout = None\<rparr>]"
  by (simp add: get_ml_trades_def get_ml_stats_def get_ml_status_def fetch_sent init_def)




end
